theory Spec2Isabelle
  imports Main "HOL-Library.Char_ord" "HOL-Library.List_Lexorder"
begin

section \<open>Runtime values\<close>

text \<open>
  The functions of \<^verbatim>\<open>src/index.ts\<close> take values of type \<^verbatim>\<open>unknown\<close>. A value is
  modelled by what the built-ins the code calls on it observe: \<^verbatim>\<open>typeof\<close>,
  \<^verbatim>\<open>Number.isNaN\<close>, \<^verbatim>\<open>===\<close>, \<^verbatim>\<open>Object.prototype.toString\<close> and, in the test
  helper, \<^verbatim>\<open>JSON.stringify\<close>. The built-ins are the ones of an unmodified ECMAScript
  environment. A call that can throw returns \<open>exn + result\<close>, with \<open>Inl\<close> for the
  exception.

  A number is NaN, one of the two infinities, or finite. The program never computes
  with a finite number it is given: it compares it (\<^verbatim>\<open>===\<close>) and prints it
  (\<^verbatim>\<open>JSON.stringify\<close>). A finite number is therefore named by the decimal text
  \<^verbatim>\<open>Number.prototype.toString\<close> prints for it, which tells any two finite numbers apart
  that \<^verbatim>\<open>===\<close> tells apart: \<^verbatim>\<open>123\<close> is \<open>Finite ''123''\<close>, \<^verbatim>\<open>1.5\<close> is
  \<open>Finite ''1.5''\<close>, and both zeros are \<open>Finite ''0''\<close>.

  Strings are lists of code units; the model keeps the code units below 256.
\<close>

datatype jsnumber = NaN | PosInfinity | NegInfinity | Finite string

datatype primitive =
    JSUndefined
  | JSNull
  | JSBoolean bool
  | JSNumber jsnumber
  | JSString string
  | JSSymbol nat
  | JSBigInt int

text \<open>
  \<^verbatim>\<open>Object.prototype.toString\<close> looks at an object twice. First it picks a built-in tag
  from the object's kind (ECMAScript, Object.prototype.toString, steps 4 to 14): an
  array, an arguments object, a callable object, an error, a Boolean, Number or String
  wrapper, a date, a regular expression, or anything else. Then it reads the object's
  \<^verbatim>\<open>Symbol.toStringTag\<close> property, own or inherited, and uses it in place of the built-in
  tag when it is a string. An object is modelled by these two observations:
  \<^verbatim>\<open>new Set()\<close> is \<open>Object OrdinaryObj (StringTag ''Set'')\<close>, \<^verbatim>\<open>new Date()\<close> is
  \<open>Object DateObj NoStringTag\<close>, \<^verbatim>\<open>async () => {}\<close> is
  \<open>Object FunctionObj (StringTag ''AsyncFunction'')\<close>, and
  \<^verbatim>\<open>{ [Symbol.toStringTag]: 'x' }\<close> is \<open>Object OrdinaryObj (StringTag ''x'')\<close>.
  In \<open>jsvalue\<close> the property is a part of the value: reading it runs no code of the
  value's own. An object whose property is computed by an accessor is modelled in the
  section on values with a computed tag.
\<close>

datatype obj_class =
    ArrayObj | ArgumentsObj | FunctionObj | ErrorObj | BooleanObj | NumberObj
  | StringObj | DateObj | RegExpObj | OrdinaryObj

datatype tag_property = NoStringTag | StringTag string

datatype jsvalue = Primitive primitive | Object obj_class tag_property

datatype exn = TypeError

section \<open>The built-ins the source calls\<close>

text \<open>\<^verbatim>\<open>typeof value\<close>: a callable object is a function, every other object and
  \<^verbatim>\<open>null\<close> an object.\<close>

fun typeof :: "jsvalue \<Rightarrow> string" where
  "typeof (Primitive JSUndefined) = ''undefined''"
| "typeof (Primitive JSNull) = ''object''"
| "typeof (Primitive (JSBoolean b)) = ''boolean''"
| "typeof (Primitive (JSNumber n)) = ''number''"
| "typeof (Primitive (JSString s)) = ''string''"
| "typeof (Primitive (JSSymbol n)) = ''symbol''"
| "typeof (Primitive (JSBigInt n)) = ''bigint''"
| "typeof (Object FunctionObj t) = ''function''"
| "typeof (Object c t) = ''object''"

text \<open>\<^verbatim>\<open>Number.isNaN(value)\<close>: true for the number NaN only (no coercion).\<close>

definition Number_isNaN :: "jsvalue \<Rightarrow> bool" where
  "Number_isNaN v = (v = Primitive (JSNumber NaN))"

text \<open>\<^verbatim>\<open>value === Infinity\<close>.\<close>

definition equals_Infinity :: "jsvalue \<Rightarrow> bool" where
  "equals_Infinity v = (v = Primitive (JSNumber PosInfinity))"

fun builtinTag :: "obj_class \<Rightarrow> string" where
  "builtinTag ArrayObj = ''Array''"
| "builtinTag ArgumentsObj = ''Arguments''"
| "builtinTag FunctionObj = ''Function''"
| "builtinTag ErrorObj = ''Error''"
| "builtinTag BooleanObj = ''Boolean''"
| "builtinTag NumberObj = ''Number''"
| "builtinTag StringObj = ''String''"
| "builtinTag DateObj = ''Date''"
| "builtinTag RegExpObj = ''RegExp''"
| "builtinTag OrdinaryObj = ''Object''"

text \<open>
  The tag \<^verbatim>\<open>Object.prototype.toString\<close> prints. \<^verbatim>\<open>undefined\<close> and \<^verbatim>\<open>null\<close> have fixed
  tags; another primitive is wrapped first (\<^verbatim>\<open>ToObject\<close>), and \<^verbatim>\<open>Symbol.prototype\<close> and
  \<^verbatim>\<open>BigInt.prototype\<close> carry a \<^verbatim>\<open>Symbol.toStringTag\<close>.
\<close>

fun internalTag :: "jsvalue \<Rightarrow> string" where
  "internalTag (Primitive JSUndefined) = ''Undefined''"
| "internalTag (Primitive JSNull) = ''Null''"
| "internalTag (Primitive (JSBoolean b)) = builtinTag BooleanObj"
| "internalTag (Primitive (JSNumber n)) = builtinTag NumberObj"
| "internalTag (Primitive (JSString s)) = builtinTag StringObj"
| "internalTag (Primitive (JSSymbol n)) = ''Symbol''"
| "internalTag (Primitive (JSBigInt n)) = ''BigInt''"
| "internalTag (Object c NoStringTag) = builtinTag c"
| "internalTag (Object c (StringTag t)) = t"

definition Object_prototype_toString :: "jsvalue \<Rightarrow> string" where
  "Object_prototype_toString v = ''[object '' @ internalTag v @ '']''"

text \<open>
  The character classes of the pattern \<^verbatim>\<open>/\s([a-zA-Z]+)/\<close>. Below 256, \<^verbatim>\<open>\s\<close> is
  TAB, LF, VT, FF, CR, SPACE and NO-BREAK SPACE.
\<close>

definition isWhiteSpace :: "char \<Rightarrow> bool" where
  "isWhiteSpace c =
     (c \<in> set [CHR 0x09, CHR 0x0A, CHR 0x0B, CHR 0x0C, CHR 0x0D, CHR 0x20, CHR 0xA0])"

definition isUpper :: "char \<Rightarrow> bool" where
  "isUpper c = (c \<in> set ''ABCDEFGHIJKLMNOPQRSTUVWXYZ'')"

definition isLower :: "char \<Rightarrow> bool" where
  "isLower c = (c \<in> set ''abcdefghijklmnopqrstuvwxyz'')"

definition isLetter :: "char \<Rightarrow> bool" where
  "isLetter c = (isLower c \<or> isUpper c)"

text \<open>
  \<^verbatim>\<open>str.match(/\s([a-zA-Z]+)/)\<close>. The pattern has no \<^verbatim>\<open>g\<close> flag, so \<^verbatim>\<open>match\<close> is
  \<^verbatim>\<open>exec\<close>: it tries each start index from the left, and at the first one where a
  white-space character is followed by a letter it takes the longest run of letters.
  The result is \<^verbatim>\<open>null\<close> (\<open>None\<close>) or the array of the whole match and group 1.
\<close>

fun String_match :: "string \<Rightarrow> string list option" where
  "String_match [] = None"
| "String_match (c # cs) =
     (if isWhiteSpace c \<and> takeWhile isLetter cs \<noteq> []
      then Some [c # takeWhile isLetter cs, takeWhile isLetter cs]
      else String_match cs)"

text \<open>
  \<^verbatim>\<open>toLowerCase\<close>, as it acts on code units below 128: the letters A to Z go to a to
  z and every other code unit is kept. The source applies it to group 1 of the match,
  a run of the letters a-z and A-Z.
\<close>

definition toLower :: "char \<Rightarrow> char" where
  "toLower c =
     (case map_of (zip ''ABCDEFGHIJKLMNOPQRSTUVWXYZ'' ''abcdefghijklmnopqrstuvwxyz'') c of
        Some l \<Rightarrow> l
      | None \<Rightarrow> c)"

definition toLowerCase :: "string \<Rightarrow> string" where
  "toLowerCase s = map toLower s"

section \<open>The functions of the source\<close>

definition getType :: "jsvalue \<Rightarrow> string" where
  "getType v = typeof v"

definition getTypesOfItems :: "jsvalue list \<Rightarrow> string list" where
  "getTypesOfItems arr = map getType arr"

text \<open>\<^verbatim>\<open>new Set(xs).size\<close> on strings: the number of distinct strings.\<close>

definition Set_size :: "string list \<Rightarrow> nat" where
  "Set_size xs = card (set xs)"

definition allItemsHaveTheSameType :: "jsvalue list \<Rightarrow> bool" where
  "allItemsHaveTheSameType arr = (Set_size (getTypesOfItems arr) = 1)"

text \<open>
  \<^verbatim>\<open>getRealType\<close>. \<^verbatim>\<open>match\<close> returns \<^verbatim>\<open>null\<close> when the pattern is not found, and the
  index \<^verbatim>\<open>[1]\<close> of \<^verbatim>\<open>null\<close> throws a TypeError.
\<close>

definition getRealType :: "jsvalue \<Rightarrow> exn + string" where
  "getRealType v =
     (if Number_isNaN v then Inr ''NaN''
      else if equals_Infinity v then Inr ''Infinity''
      else case String_match (Object_prototype_toString v) of
             None \<Rightarrow> Inl TypeError
           | Some m \<Rightarrow> Inr (toLowerCase (m ! 1)))"

text \<open>
  An array is the list of its elements: a dense array, as an array literal without
  holes is. \<^verbatim>\<open>arr.map(f)\<close>, for an \<open>f\<close> that may throw, visits the elements in order,
  and the first exception ends the call.
\<close>

fun Array_map :: "('a \<Rightarrow> exn + 'b) \<Rightarrow> 'a list \<Rightarrow> exn + 'b list" where
  "Array_map f [] = Inr []"
| "Array_map f (x # xs) =
     (case f x of
        Inl e \<Rightarrow> Inl e
      | Inr y \<Rightarrow> (case Array_map f xs of Inl e \<Rightarrow> Inl e | Inr ys \<Rightarrow> Inr (y # ys)))"

definition getRealTypesOfItems :: "jsvalue list \<Rightarrow> exn + string list" where
  "getRealTypesOfItems arr = Array_map getRealType arr"

definition everyItemHasAUniqueRealType :: "jsvalue list \<Rightarrow> exn + bool" where
  "everyItemHasAUniqueRealType arr =
     (case getRealTypesOfItems arr of
        Inl e \<Rightarrow> Inl e
      | Inr types \<Rightarrow> Inr (Set_size types = length arr))"

text \<open>
  \<^verbatim>\<open>countRealTypes\<close> counts in \<^verbatim>\<open>const result: resultObject = {}\<close>, an ordinary object
  whose prototype is \<^verbatim>\<open>Object.prototype\<close>. The statement
  \<^verbatim>\<open>result[type] = (result[type] || 0) + 1\<close> stores a number, or a string when what it
  read is not a number (\<^verbatim>\<open>+\<close> concatenates then).
\<close>

datatype propvalue = PNumber nat | PString string

text \<open>The own properties of \<^verbatim>\<open>result\<close>, in the order of their creation.\<close>

type_synonym resultObject = "(string \<times> propvalue) list"

text \<open>
  What \<^verbatim>\<open>result[key]\<close> reads: an own property, else a property of \<^verbatim>\<open>Object.prototype\<close>,
  else \<^verbatim>\<open>undefined\<close>. A key is a tag \<^verbatim>\<open>getRealType\<close> returned, that is \<^verbatim>\<open>'NaN'\<close>,
  \<^verbatim>\<open>'Infinity'\<close> or lower-case letters (\<open>getRealType_letters\<close> below). Of the names
  \<^verbatim>\<open>Object.prototype\<close> defines (\<^verbatim>\<open>constructor\<close>, \<^verbatim>\<open>hasOwnProperty\<close>, \<^verbatim>\<open>isPrototypeOf\<close>,
  \<^verbatim>\<open>propertyIsEnumerable\<close>, \<^verbatim>\<open>toLocaleString\<close>, \<^verbatim>\<open>toString\<close>, \<^verbatim>\<open>valueOf\<close>, \<^verbatim>\<open>__proto__\<close>
  and the four \<^verbatim>\<open>__defineGetter__\<close>-style names) only \<^verbatim>\<open>constructor\<close> is such a key, and
  it is the one the model holds: the function \<^verbatim>\<open>Object\<close>, by the text
  \<^verbatim>\<open>Function.prototype.toString\<close> gives for it (the text is as V8 prints it; an engine
  may lay out the same native-code text differently).
\<close>

datatype property_read = ReadUndefined | ReadValue propvalue | ReadFunction string

definition Object_prototype :: "string \<Rightarrow> property_read" where
  "Object_prototype key =
     (if key = ''constructor'' then ReadFunction ''function Object() { [native code] }''
      else ReadUndefined)"

definition get_property :: "resultObject \<Rightarrow> string \<Rightarrow> property_read" where
  "get_property result key =
     (case map_of result key of Some v \<Rightarrow> ReadValue v | None \<Rightarrow> Object_prototype key)"

text \<open>
  \<^verbatim>\<open>(x || 0) + 1\<close>. \<^verbatim>\<open>undefined\<close>, \<^verbatim>\<open>0\<close> and the empty string are falsy. A function
  and a non-empty string are truthy and turn \<^verbatim>\<open>+\<close> into concatenation with \<^verbatim>\<open>'1'\<close>.
  A count is at most the length of the array, which is below 2^32, so the addition is
  exact.
\<close>

fun or_zero_plus_one :: "property_read \<Rightarrow> propvalue" where
  "or_zero_plus_one ReadUndefined = PNumber 1"
| "or_zero_plus_one (ReadValue (PNumber n)) = PNumber (n + 1)"
| "or_zero_plus_one (ReadValue (PString s)) =
     (if s = [] then PNumber 1 else PString (s @ ''1''))"
| "or_zero_plus_one (ReadFunction src) = PString (src @ ''1'')"

text \<open>\<^verbatim>\<open>result[key] = v\<close>: an own property keeps its place, a new one goes last
  (an inherited \<^verbatim>\<open>constructor\<close> is writable, so the assignment creates an own one).\<close>

fun set_property :: "resultObject \<Rightarrow> string \<Rightarrow> propvalue \<Rightarrow> resultObject" where
  "set_property [] key v = [(key, v)]"
| "set_property ((k, w) # ps) key v =
     (if k = key then (k, v) # ps else (k, w) # set_property ps key v)"

text \<open>The callback of \<^verbatim>\<open>forEach\<close>.\<close>

definition count_type :: "resultObject \<Rightarrow> string \<Rightarrow> resultObject" where
  "count_type result type = set_property result type (or_zero_plus_one (get_property result type))"

text \<open>\<^verbatim>\<open>Object.entries(result)\<close>: the own properties in creation order (no key here is
  an array index, which would come first).\<close>

definition Object_entries :: "resultObject \<Rightarrow> (string \<times> propvalue) list" where
  "Object_entries result = result"

text \<open>
  \<^verbatim>\<open>countRealTypes\<close>. \<^verbatim>\<open>sort()\<close> without a comparator orders strings by their code
  units, a proper prefix first: the order of \<open>string\<close> here.
\<close>

definition countRealTypes :: "jsvalue list \<Rightarrow> exn + (string \<times> propvalue) list" where
  "countRealTypes arr =
     (case getRealTypesOfItems arr of
        Inl e \<Rightarrow> Inl e
      | Inr types \<Rightarrow> Inr (Object_entries (foldl count_type [] (sort types))))"

text \<open>The array \<^verbatim>\<open>knownTypes\<close> of the source's tests.\<close>

definition knownTypes :: "jsvalue list" where
  "knownTypes =
     [Primitive (JSBoolean True),
      Primitive (JSNumber (Finite ''1'')),
      Primitive (JSString []),
      Object ArrayObj NoStringTag,
      Object OrdinaryObj NoStringTag,
      Object FunctionObj NoStringTag,
      Primitive JSUndefined,
      Primitive JSNull,
      Primitive (JSNumber NaN),
      Primitive (JSNumber PosInfinity),
      Object DateObj NoStringTag,
      Object RegExpObj NoStringTag,
      Object OrdinaryObj (StringTag ''Set''),
      Object FunctionObj (StringTag ''AsyncFunction''),
      Object OrdinaryObj (StringTag ''Promise''),
      Object FunctionObj (StringTag ''GeneratorFunction''),
      Object ErrorObj NoStringTag,
      Object OrdinaryObj (StringTag ''WeakMap'')]"

section \<open>The test helper\<close>

text \<open>
  \<^verbatim>\<open>areEqual\<close> compares what the functions return with the literals of the tests:
  primitives and arrays of them (\<^verbatim>\<open>// Compare arrays of primitives\<close>), nested for
  \<^verbatim>\<open>countRealTypes\<close>. These are the values it is modelled on.
\<close>

datatype jsdata = Datum primitive | Array "jsdata list"

text \<open>\<^verbatim>\<open>a === b\<close> on primitives: the same type and the same value, and NaN equal to
  nothing.\<close>

fun strict_equals :: "primitive \<Rightarrow> primitive \<Rightarrow> bool" where
  "strict_equals (JSNumber NaN) q = False"
| "strict_equals p q = (p = q)"

text \<open>
  \<^verbatim>\<open>QuoteJSONString\<close> (ECMAScript, JSON.stringify): the string between double quotes,
  with the single-character escapes of its table, \<^verbatim>\<open>\u00XX\<close> with lower-case digits for
  the other code units below 0x20, and every other code unit as it is.
\<close>

definition JSON_single_escapes :: "(char \<times> char) list" where
  "JSON_single_escapes =
     [(CHR 0x08, CHR ''b''), (CHR 0x09, CHR ''t''), (CHR 0x0A, CHR ''n''),
      (CHR 0x0C, CHR ''f''), (CHR 0x0D, CHR ''r''), (CHR 0x22, CHR 0x22),
      (CHR 0x5C, CHR 0x5C)]"

definition hexDigit :: "nat \<Rightarrow> char" where
  "hexDigit n = ''0123456789abcdef'' ! n"

definition UnicodeEscape :: "char \<Rightarrow> string" where
  "UnicodeEscape c =
     [CHR 0x5C, CHR ''u'', CHR ''0'', CHR ''0'',
      hexDigit (of_char c div 16), hexDigit (of_char c mod 16)]"

definition QuoteJSONChar :: "char \<Rightarrow> string" where
  "QuoteJSONChar c =
     (case map_of JSON_single_escapes c of
        Some x \<Rightarrow> [CHR 0x5C, x]
      | None \<Rightarrow> if (of_char c :: nat) < 0x20 then UnicodeEscape c else [c])"

definition QuoteJSONString :: "string \<Rightarrow> string" where
  "QuoteJSONString s = CHR 0x22 # concat (map QuoteJSONChar s) @ [CHR 0x22]"

text \<open>The elements of an array are joined with commas.\<close>

fun join_comma :: "string list \<Rightarrow> string" where
  "join_comma [] = []"
| "join_comma [x] = x"
| "join_comma (x # y # ys) = x @ CHR '','' # join_comma (y # ys)"

text \<open>
  \<^verbatim>\<open>SerializeJSONProperty\<close> and \<^verbatim>\<open>SerializeJSONArray\<close>, without replacer and
  indentation. \<^verbatim>\<open>undefined\<close> and a symbol have no JSON text (\<open>None\<close>) and are printed
  as \<^verbatim>\<open>null\<close> inside an array; NaN and the infinities are printed as \<^verbatim>\<open>null\<close>; a
  BigInt throws a TypeError.
\<close>

fun SerializeJSONProperty :: "jsdata \<Rightarrow> exn + string option"
  and SerializeJSONElements :: "jsdata list \<Rightarrow> exn + string list" where
  "SerializeJSONProperty (Datum JSUndefined) = Inr None"
| "SerializeJSONProperty (Datum JSNull) = Inr (Some ''null'')"
| "SerializeJSONProperty (Datum (JSBoolean b)) = Inr (Some (if b then ''true'' else ''false''))"
| "SerializeJSONProperty (Datum (JSNumber (Finite t))) = Inr (Some t)"
| "SerializeJSONProperty (Datum (JSNumber n)) = Inr (Some ''null'')"
| "SerializeJSONProperty (Datum (JSString s)) = Inr (Some (QuoteJSONString s))"
| "SerializeJSONProperty (Datum (JSSymbol n)) = Inr None"
| "SerializeJSONProperty (Datum (JSBigInt i)) = Inl TypeError"
| "SerializeJSONProperty (Array xs) =
     (case SerializeJSONElements xs of
        Inl e \<Rightarrow> Inl e
      | Inr partial \<Rightarrow> Inr (Some (''['' @ join_comma partial @ '']'')))"
| "SerializeJSONElements [] = Inr []"
| "SerializeJSONElements (x # xs) =
     (case SerializeJSONProperty x of
        Inl e \<Rightarrow> Inl e
      | Inr strP \<Rightarrow>
          (case SerializeJSONElements xs of
             Inl e \<Rightarrow> Inl e
           | Inr partial \<Rightarrow> Inr ((case strP of None \<Rightarrow> ''null'' | Some s \<Rightarrow> s) # partial)))"

definition JSON_stringify :: "jsdata \<Rightarrow> exn + string option" where
  "JSON_stringify v = SerializeJSONProperty v"

text \<open>
  \<^verbatim>\<open>areEqual\<close>. Two arrays are compared by length, then by their JSON texts, the
  left one printed first; anything else by \<^verbatim>\<open>===\<close>, which is false for an array and
  a primitive.
\<close>

definition areEqual :: "jsdata \<Rightarrow> jsdata \<Rightarrow> exn + bool" where
  "areEqual a b =
     (case (a, b) of
        (Array xs, Array ys) \<Rightarrow>
          if length xs \<noteq> length ys then Inr False
          else if length xs = 0 then Inr False
          else (case JSON_stringify a of
                  Inl e \<Rightarrow> Inl e
                | Inr sa \<Rightarrow>
                    (case JSON_stringify b of
                       Inl e \<Rightarrow> Inl e
                     | Inr sb \<Rightarrow> Inr (sa = sb)))
      | (Datum p, Datum q) \<Rightarrow> Inr (strict_equals p q)
      | _ \<Rightarrow> Inr False)"

section \<open>Values with a computed tag\<close>




section \<open>The tests of the source\<close>

text \<open>
  The source ends with its tests. The model gives the results they expect: the
  \<^verbatim>\<open>typeof\<close> results and the tags of \<^verbatim>\<open>knownTypes\<close>, and the three tables of
  \<^verbatim>\<open>countRealTypes\<close>.
\<close>

lemma test_getTypesOfItems:
  "getTypesOfItems knownTypes =
     [''boolean'', ''number'', ''string'', ''object'', ''object'', ''function'', ''undefined'',
      ''object'', ''number'', ''number'', ''object'', ''object'', ''object'', ''function'',
      ''object'', ''function'', ''object'', ''object'']"
  by (simp add: knownTypes_def getTypesOfItems_def getType_def)

lemma test_getRealTypesOfItems:
  "getRealTypesOfItems knownTypes =
     Inr [''boolean'', ''number'', ''string'', ''array'', ''object'', ''function'', ''undefined'',
      ''null'', ''NaN'', ''Infinity'', ''date'', ''regexp'', ''set'', ''asyncfunction'',
      ''promise'', ''generatorfunction'', ''error'', ''weakmap'']"
  by (simp add: knownTypes_def getRealTypesOfItems_def getRealType_def Number_isNaN_def
      equals_Infinity_def Object_prototype_toString_def isWhiteSpace_def isLetter_def
      isLower_def isUpper_def toLowerCase_def toLower_def)

lemma test_countRealTypes:
  "countRealTypes [Primitive (JSBoolean True), Primitive JSNull, Primitive (JSBoolean True),
                   Primitive (JSBoolean False), Object OrdinaryObj NoStringTag]
     = Inr [(''boolean'', PNumber 3), (''null'', PNumber 1), (''object'', PNumber 1)]"
  "countRealTypes [Object OrdinaryObj NoStringTag, Primitive JSNull, Primitive (JSBoolean True),
                   Primitive (JSBoolean True), Primitive (JSBoolean False)]
     = Inr [(''boolean'', PNumber 3), (''null'', PNumber 1), (''object'', PNumber 1)]"
  "countRealTypes [Object ArrayObj NoStringTag, Primitive (JSNumber (Finite ''1'')),
                   Primitive (JSBoolean True), Primitive (JSBoolean False),
                   Primitive (JSBoolean True), Primitive (JSNumber (Finite ''2''))]
     = Inr [(''array'', PNumber 1), (''boolean'', PNumber 3), (''number'', PNumber 2)]"
  by (simp_all add: countRealTypes_def getRealTypesOfItems_def getRealType_def Number_isNaN_def
      equals_Infinity_def Object_prototype_toString_def isWhiteSpace_def isLetter_def
      isLower_def isUpper_def toLowerCase_def toLower_def Object_entries_def count_type_def
      get_property_def Object_prototype_def)

section \<open>Letters and the pattern\<close>

lemma upper_cases:
  "isUpper c \<Longrightarrow> c \<in> {CHR ''A'', CHR ''B'', CHR ''C'', CHR ''D'', CHR ''E'', CHR ''F'', CHR ''G'',
     CHR ''H'', CHR ''I'', CHR ''J'', CHR ''K'', CHR ''L'', CHR ''M'', CHR ''N'', CHR ''O'', CHR ''P'',
     CHR ''Q'', CHR ''R'', CHR ''S'', CHR ''T'', CHR ''U'', CHR ''V'', CHR ''W'', CHR ''X'', CHR ''Y'',
     CHR ''Z''}"
  by (simp add: isUpper_def)

lemma lower_cases:
  "isLower c \<Longrightarrow> c \<in> {CHR ''a'', CHR ''b'', CHR ''c'', CHR ''d'', CHR ''e'', CHR ''f'', CHR ''g'',
     CHR ''h'', CHR ''i'', CHR ''j'', CHR ''k'', CHR ''l'', CHR ''m'', CHR ''n'', CHR ''o'', CHR ''p'',
     CHR ''q'', CHR ''r'', CHR ''s'', CHR ''t'', CHR ''u'', CHR ''v'', CHR ''w'', CHR ''x'', CHR ''y'',
     CHR ''z''}"
  by (simp add: isLower_def)

lemma toLower_upper: "isUpper c \<Longrightarrow> isLower (toLower c)"
  by (drule upper_cases, elim insertE emptyE; simp add: toLower_def isLower_def)

lemma toLower_lower: "isLower c \<Longrightarrow> toLower c = c"
  by (drule lower_cases, elim insertE emptyE; simp add: toLower_def)

lemma lower_not_upper: "isLower c \<Longrightarrow> \<not> isUpper c"
  by (drule lower_cases, elim insertE emptyE; simp add: isUpper_def)

lemma toLower_letter: "isLetter c \<Longrightarrow> isLower (toLower c)"
  by (auto simp: isLetter_def toLower_upper toLower_lower)

lemma toLowerCase_letters:
  "\<forall>c\<in>set s. isLetter c \<Longrightarrow> \<forall>c\<in>set (toLowerCase s). isLower c"
  by (simp add: toLowerCase_def toLower_letter)

lemma toLowerCase_Nil_iff: "toLowerCase s = [] \<longleftrightarrow> s = []"
  by (simp add: toLowerCase_def)

lemma String_match_Some:
  "String_match s = Some m \<Longrightarrow>
     \<exists>c g. m = [c # g, g] \<and> isWhiteSpace c \<and> g \<noteq> [] \<and> (\<forall>x\<in>set g. isLetter x)"
proof (induction s)
  case Nil
  then show ?case by simp
next
  case (Cons a s)
  then show ?case
    by (auto split: if_splits dest: set_takeWhileD)
qed

text \<open>
  \<open>String_match\<close> against the pattern: it finds nothing exactly when no white-space
  character of the string is followed by a letter, and what it finds is the leftmost
  such place with the longest run of letters after it.
\<close>

lemma String_match_None_iff:
  "String_match s = None \<longleftrightarrow>
     (\<forall>i. Suc i < length s \<longrightarrow> \<not> (isWhiteSpace (s ! i) \<and> isLetter (s ! Suc i)))"
proof (induction s)
  case Nil
  then show ?case by simp
next
  case (Cons c cs)
  have t: "takeWhile isLetter cs \<noteq> [] \<longleftrightarrow> cs \<noteq> [] \<and> isLetter (cs ! 0)"
    by (cases cs) simp_all
  have "(\<forall>i. Suc i < length (c # cs) \<longrightarrow>
            \<not> (isWhiteSpace ((c # cs) ! i) \<and> isLetter ((c # cs) ! Suc i)))
      \<longleftrightarrow> \<not> (isWhiteSpace c \<and> cs \<noteq> [] \<and> isLetter (cs ! 0))
          \<and> (\<forall>i. Suc i < length cs \<longrightarrow> \<not> (isWhiteSpace (cs ! i) \<and> isLetter (cs ! Suc i)))"
    (is "?L \<longleftrightarrow> ?A \<and> ?B")
  proof
    assume l: ?L
    from l [rule_format, of 0] have ?A by auto
    moreover have ?B
    proof (intro allI impI)
      fix i assume "Suc i < length cs"
      with l [rule_format, of "Suc i"] show "\<not> (isWhiteSpace (cs ! i) \<and> isLetter (cs ! Suc i))"
        by simp
    qed
    ultimately show "?A \<and> ?B" ..
  next
    assume ab: "?A \<and> ?B"
    show ?L
    proof (intro allI impI)
      fix i assume i: "Suc i < length (c # cs)"
      show "\<not> (isWhiteSpace ((c # cs) ! i) \<and> isLetter ((c # cs) ! Suc i))"
      proof (cases i)
        case 0
        with i ab show ?thesis by auto
      next
        case (Suc j)
        with i ab show ?thesis by simp
      qed
    qed
  qed
  with Cons.IH t show ?case by auto
qed

lemma takeWhile_hd_iff: "takeWhile P xs \<noteq> [] \<longleftrightarrow> xs \<noteq> [] \<and> P (hd xs)"
  by (cases xs) simp_all

lemma String_match_leftmost_longest:
  assumes "String_match s = Some m"
  shows "\<exists>pre c g post. s = pre @ c # g @ post \<and> m = [c # g, g]
           \<and> isWhiteSpace c \<and> g \<noteq> [] \<and> (\<forall>x\<in>set g. isLetter x)
           \<and> (post \<noteq> [] \<longrightarrow> \<not> isLetter (hd post))
           \<and> String_match (pre @ [c]) = None"
  using assms
proof (induction s)
  case Nil
  then show ?case by simp
next
  case (Cons a s)
  show ?case
  proof (cases "isWhiteSpace a \<and> takeWhile isLetter s \<noteq> []")
    case True
    let ?g = "takeWhile isLetter s" and ?post = "dropWhile isLetter s"
    from True Cons.prems have m: "m = [a # ?g, ?g]" by simp
    have "a # s = [] @ a # ?g @ ?post" by simp
    moreover have "\<forall>x\<in>set ?g. isLetter x" by (auto dest: set_takeWhileD)
    moreover have "?post \<noteq> [] \<longrightarrow> \<not> isLetter (hd ?post)" by (simp add: hd_dropWhile)
    moreover have "String_match ([] @ [a]) = None" by simp
    ultimately show ?thesis using m True by blast
  next
    case False
    with Cons.prems have "String_match s = Some m" by (simp split: if_splits)
    from Cons.IH [OF this] obtain pre c g post where
      s: "s = pre @ c # g @ post" and m: "m = [c # g, g]" and c: "isWhiteSpace c"
      and g: "g \<noteq> []" "\<forall>x\<in>set g. isLetter x" and p: "post \<noteq> [] \<longrightarrow> \<not> isLetter (hd post)"
      and n: "String_match (pre @ [c]) = None"
      by blast
    have "hd (pre @ [c]) = hd s" unfolding s by (cases pre) simp_all
    with False have "\<not> (isWhiteSpace a \<and> takeWhile isLetter (pre @ [c]) \<noteq> [])"
      unfolding takeWhile_hd_iff s by auto
    with n have "String_match ((a # pre) @ [c]) = None" by simp
    moreover from s have "a # s = (a # pre) @ c # g @ post" by simp
    ultimately show ?thesis using m c g p by blast
  qed
qed

lemma String_match_group:
  assumes "String_match s = Some m"
  shows "m ! 1 \<noteq> [] \<and> (\<forall>x\<in>set (m ! 1). isLetter x)"
proof -
  from String_match_Some [OF assms] obtain c g
    where "m = [c # g, g]" "g \<noteq> []" "\<forall>x\<in>set g. isLetter x" by blast
  then show ?thesis by simp
qed

lemma takeWhile_letters_bracket:
  "takeWhile isLetter (t @ '']'') = takeWhile isLetter t"
proof (cases "\<forall>c\<in>set t. isLetter c")
  case True
  have nl: "\<not> isLetter CHR '']''" by (simp add: isLetter_def isLower_def isUpper_def)
  from True have "takeWhile isLetter (t @ '']'') = t" by (simp add: nl)
  moreover from True have "takeWhile isLetter t = t" by simp
  ultimately show ?thesis by (simp only:)
next
  case False
  then obtain x where "x \<in> set t" "\<not> isLetter x" by blast
  then show ?thesis by (rule takeWhile_append1)
qed

lemma not_white: "\<not> isWhiteSpace CHR ''[''" "\<not> isWhiteSpace CHR ''o''" "\<not> isWhiteSpace CHR ''b''"
  "\<not> isWhiteSpace CHR ''j''" "\<not> isWhiteSpace CHR ''e''" "\<not> isWhiteSpace CHR ''c''" "\<not> isWhiteSpace CHR ''t''"
  by (simp_all add: isWhiteSpace_def)

lemma String_match_skip: "\<not> isWhiteSpace c \<Longrightarrow> String_match (c # s) = String_match s"
  by simp

lemma String_match_object_prefix:
  "String_match (''[object '' @ s) = String_match (CHR '' '' # s)"
  by (simp only: append_Cons append_Nil String_match_skip not_white simp_thms)

lemma String_match_probe:
  assumes "t \<noteq> []" "isLetter (hd t)"
  shows "String_match (''[object '' @ t @ '']'') =
           Some [CHR '' '' # takeWhile isLetter t, takeWhile isLetter t]"
proof -
  have w: "isWhiteSpace CHR '' ''" by (simp add: isWhiteSpace_def)
  have n: "takeWhile isLetter t \<noteq> []" using assms by (simp add: takeWhile_eq_Nil_iff)
  have "String_match (CHR '' '' # (t @ '']'')) =
          Some [CHR '' '' # takeWhile isLetter (t @ '']''), takeWhile isLetter (t @ '']'')]"
    unfolding String_match.simps takeWhile_letters_bracket using w n by (simp only: simp_thms if_True)
  then show ?thesis unfolding String_match_object_prefix takeWhile_letters_bracket .
qed

section \<open>What \<^verbatim>\<open>getRealType\<close> returns\<close>

lemma getRealType_fallback:
  "\<not> Number_isNaN v \<Longrightarrow> \<not> equals_Infinity v \<Longrightarrow>
   getRealType v =
     (case String_match (Object_prototype_toString v) of
        None \<Rightarrow> Inl TypeError
      | Some m \<Rightarrow> Inr (toLowerCase (m ! 1)))"
  by (simp add: getRealType_def)

lemma getRealType_Inl_iff:
  "getRealType v = Inl e \<longleftrightarrow>
     \<not> Number_isNaN v \<and> \<not> equals_Infinity v
     \<and> String_match (Object_prototype_toString v) = None"
  by (cases e) (auto simp: getRealType_def split: option.splits)

lemma getRealType_letter_tag:
  assumes "\<not> Number_isNaN v" "\<not> equals_Infinity v"
    and "internalTag v \<noteq> []" "isLetter (hd (internalTag v))"
  shows "getRealType v = Inr (toLowerCase (takeWhile isLetter (internalTag v)))"
  unfolding getRealType_fallback [OF assms(1,2)] Object_prototype_toString_def
    String_match_probe [OF assms(3,4)]
  by simp

lemma getRealType_all_letters_tag:
  assumes "\<not> Number_isNaN v" "\<not> equals_Infinity v"
    and "internalTag v \<noteq> []" "\<forall>c\<in>set (internalTag v). isLetter c"
  shows "getRealType v = Inr (toLowerCase (internalTag v))"
proof -
  from assms(3,4) have "isLetter (hd (internalTag v))" by simp
  moreover from assms(4) have "takeWhile isLetter (internalTag v) = internalTag v" by simp
  ultimately show ?thesis using getRealType_letter_tag [OF assms(1,2,3)] by (simp only:)
qed

lemma getRealType_letters:
  assumes "getRealType v = Inr t"
  shows "t = ''NaN'' \<or> t = ''Infinity'' \<or> (t \<noteq> [] \<and> (\<forall>c\<in>set t. isLower c))"
proof (cases "Number_isNaN v \<or> equals_Infinity v")
  case True
  with assms show ?thesis by (auto simp: getRealType_def split: if_splits)
next
  case False
  with assms obtain m where m: "String_match (Object_prototype_toString v) = Some m"
    and t: "t = toLowerCase (m ! 1)"
    by (auto simp: getRealType_fallback split: option.splits)
  from String_match_group [OF m] have "m ! 1 \<noteq> []" "\<forall>x\<in>set (m ! 1). isLetter x"
    by simp_all
  then have "toLowerCase (m ! 1) \<noteq> []" "\<forall>c\<in>set (toLowerCase (m ! 1)). isLower c"
    by (simp_all add: toLowerCase_Nil_iff toLowerCase_letters)
  with t show ?thesis by simp
qed

lemma upper_in_tag_iff:
  assumes "getRealType v = Inr t"
  shows "(\<exists>c\<in>set t. isUpper c) \<longleftrightarrow> t = ''NaN'' \<or> t = ''Infinity''"
proof
  assume "\<exists>c\<in>set t. isUpper c"
  with getRealType_letters [OF assms] show "t = ''NaN'' \<or> t = ''Infinity''"
    by (auto dest: lower_not_upper)
next
  assume "t = ''NaN'' \<or> t = ''Infinity''"
  then have "CHR ''N'' \<in> set t \<or> CHR ''I'' \<in> set t" by auto
  moreover have "isUpper CHR ''N''" "isUpper CHR ''I''" by (simp_all add: isUpper_def)
  ultimately show "\<exists>c\<in>set t. isUpper c" by blast
qed

lemma builtin_tag_eval:
  "getRealType (Primitive JSUndefined) = Inr ''undefined''"
  "getRealType (Primitive JSNull) = Inr ''null''"
  "getRealType (Primitive (JSBoolean b)) = Inr ''boolean''"
  "getRealType (Primitive (JSNumber NaN)) = Inr ''NaN''"
  "getRealType (Primitive (JSNumber PosInfinity)) = Inr ''Infinity''"
  "getRealType (Primitive (JSNumber NegInfinity)) = Inr ''number''"
  "getRealType (Primitive (JSNumber (Finite x))) = Inr ''number''"
  "getRealType (Primitive (JSString s)) = Inr ''string''"
  "getRealType (Primitive (JSSymbol n)) = Inr ''symbol''"
  "getRealType (Primitive (JSBigInt i)) = Inr ''bigint''"
  "getRealType (Object ArrayObj NoStringTag) = Inr ''array''"
  "getRealType (Object ArgumentsObj NoStringTag) = Inr ''arguments''"
  "getRealType (Object FunctionObj NoStringTag) = Inr ''function''"
  "getRealType (Object ErrorObj NoStringTag) = Inr ''error''"
  "getRealType (Object BooleanObj NoStringTag) = Inr ''boolean''"
  "getRealType (Object NumberObj NoStringTag) = Inr ''number''"
  "getRealType (Object StringObj NoStringTag) = Inr ''string''"
  "getRealType (Object DateObj NoStringTag) = Inr ''date''"
  "getRealType (Object RegExpObj NoStringTag) = Inr ''regexp''"
  "getRealType (Object OrdinaryObj NoStringTag) = Inr ''object''"
  by (simp_all add: getRealType_def Number_isNaN_def equals_Infinity_def
      Object_prototype_toString_def isWhiteSpace_def isLetter_def isLower_def isUpper_def
      toLowerCase_def toLower_def)

lemma builtin_lower_eval:
  "toLowerCase ''Undefined'' = ''undefined''"
  "toLowerCase ''Null'' = ''null''"
  "toLowerCase ''Symbol'' = ''symbol''"
  "toLowerCase ''BigInt'' = ''bigint''"
  "toLowerCase ''Array'' = ''array''"
  "toLowerCase ''Arguments'' = ''arguments''"
  "toLowerCase ''Function'' = ''function''"
  "toLowerCase ''Error'' = ''error''"
  "toLowerCase ''Boolean'' = ''boolean''"
  "toLowerCase ''Number'' = ''number''"
  "toLowerCase ''String'' = ''string''"
  "toLowerCase ''Date'' = ''date''"
  "toLowerCase ''RegExp'' = ''regexp''"
  "toLowerCase ''Object'' = ''object''"
  by (simp_all add: toLowerCase_def toLower_def)

lemma getRealType_no_string_tag:
  assumes "\<not> Number_isNaN v" "\<not> equals_Infinity v" "\<forall>c s. v \<noteq> Object c (StringTag s)"
  shows "getRealType v = Inr (toLowerCase (internalTag v))"
proof (cases v)
  case (Primitive p)
  show ?thesis
  proof (cases p)
    case (JSNumber n)
    with Primitive assms(1,2) show ?thesis
      by (cases n) (simp_all add: builtin_tag_eval builtin_lower_eval Number_isNaN_def equals_Infinity_def)
  qed (simp_all add: Primitive builtin_tag_eval builtin_lower_eval)
next
  case (Object c t)
  with assms(3) have t: "t = NoStringTag" by (cases t) simp_all
  show ?thesis unfolding Object t
    by (cases c) (simp_all add: builtin_tag_eval builtin_lower_eval)
qed

section \<open>Special values\<close>

text \<open>
  Claim C1. \<^verbatim>\<open>getRealType(NaN)\<close> is \<^verbatim>\<open>'NaN'\<close>, \<^verbatim>\<open>getRealType(Infinity)\<close> is
  \<^verbatim>\<open>'Infinity'\<close>, \<^verbatim>\<open>getRealType(-Infinity)\<close> is \<^verbatim>\<open>'number'\<close> (negative infinity has no
  case of its own) and \<^verbatim>\<open>getRealType(null)\<close> is \<^verbatim>\<open>'null'\<close>, not \<^verbatim>\<open>'object'\<close>.
\<close>

theorem getRealType_special_values:
  "getRealType (Primitive (JSNumber NaN)) = Inr ''NaN''
   \<and> getRealType (Primitive (JSNumber PosInfinity)) = Inr ''Infinity''
   \<and> getRealType (Primitive (JSNumber NegInfinity)) = Inr ''number''
   \<and> getRealType (Primitive JSNull) = Inr ''null''
   \<and> getRealType (Primitive JSNull) \<noteq> Inr ''object''"
  by (simp add: builtin_tag_eval)

section \<open>Totality\<close>

text \<open>
  Claim C2 says that \<^verbatim>\<open>getRealType\<close> throws for no value. The object
  \<^verbatim>\<open>{ [Symbol.toStringTag]: '' }\<close> is a value for which it throws:
  \<^verbatim>\<open>Object.prototype.toString\<close> gives \<^verbatim>\<open>'[object ]'\<close>, where no letter follows the
  space, so \<^verbatim>\<open>match\<close> returns \<^verbatim>\<open>null\<close> and the index \<^verbatim>\<open>[1]\<close> throws a TypeError.
\<close>

theorem getRealType_throws_on_empty_tag:
  "Object_prototype_toString (Object OrdinaryObj (StringTag [])) = ''[object ]''
   \<and> String_match ''[object ]'' = None
   \<and> getRealType (Object OrdinaryObj (StringTag [])) = Inl TypeError"
  by (simp add: getRealType_def Number_isNaN_def equals_Infinity_def
      Object_prototype_toString_def isWhiteSpace_def isLetter_def isLower_def isUpper_def)

section \<open>The priority chain\<close>

text \<open>
  Claim C3, as the code has it. \<^verbatim>\<open>getRealType\<close> checks for NaN first, then for
  positive infinity, and only then reads the tag. In that last case, for a value whose
  tag begins with a letter a-z or A-Z, it returns the leading run of such letters of
  the tag, lower-cased: this is the whole tag lower-cased when the tag is made of these
  letters only, which it is for every value without a \<^verbatim>\<open>Symbol.toStringTag\<close> string. A
  tag it returns is never empty, and \<^verbatim>\<open>'NaN'\<close> and \<^verbatim>\<open>'Infinity'\<close> are the only tags it
  returns that contain an upper-case letter: every other one is made of a-z.
\<close>

theorem getRealType_priority_chain:
  "(Number_isNaN v \<longrightarrow> getRealType v = Inr ''NaN'')
   \<and> (\<not> Number_isNaN v \<and> equals_Infinity v \<longrightarrow> getRealType v = Inr ''Infinity'')
   \<and> (\<not> Number_isNaN v \<and> \<not> equals_Infinity v \<and> internalTag v \<noteq> []
        \<and> isLetter (hd (internalTag v)) \<longrightarrow>
        getRealType v = Inr (toLowerCase (takeWhile isLetter (internalTag v))))
   \<and> (\<not> Number_isNaN v \<and> \<not> equals_Infinity v \<and> internalTag v \<noteq> []
        \<and> (\<forall>c\<in>set (internalTag v). isLetter c) \<longrightarrow>
        getRealType v = Inr (toLowerCase (internalTag v)))
   \<and> (\<not> Number_isNaN v \<and> \<not> equals_Infinity v \<and> (\<forall>c s. v \<noteq> Object c (StringTag s)) \<longrightarrow>
        getRealType v = Inr (toLowerCase (internalTag v)))
   \<and> (getRealType v = Inr t \<longrightarrow>
        t \<noteq> [] \<and> ((\<exists>c\<in>set t. isUpper c) \<longleftrightarrow> t = ''NaN'' \<or> t = ''Infinity'')
        \<and> (t = ''NaN'' \<or> t = ''Infinity'' \<or> (\<forall>c\<in>set t. isLower c)))"
proof -
  have "getRealType v = Inr t \<Longrightarrow> t \<noteq> []"
    using getRealType_letters [of v t] by auto
  moreover have "getRealType v = Inr t \<Longrightarrow> t = ''NaN'' \<or> t = ''Infinity'' \<or> (\<forall>c\<in>set t. isLower c)"
    using getRealType_letters [of v t] by auto
  moreover have "Number_isNaN v \<Longrightarrow> getRealType v = Inr ''NaN''"
    by (simp add: getRealType_def)
  moreover have "\<not> Number_isNaN v \<Longrightarrow> equals_Infinity v \<Longrightarrow> getRealType v = Inr ''Infinity''"
    by (simp add: getRealType_def)
  ultimately show ?thesis
    using getRealType_letter_tag [of v] getRealType_all_letters_tag [of v]
      getRealType_no_string_tag [of v] upper_in_tag_iff [of v t]
    by blast
qed

theorem getRealType_priority_chain_witness:
  "getRealType (Primitive (JSNumber NaN)) = Inr ''NaN''
   \<and> getRealType (Primitive (JSNumber PosInfinity)) = Inr ''Infinity''
   \<and> getRealType (Object OrdinaryObj (StringTag ''Int8Array'')) = Inr ''int''
   \<and> getRealType (Object ArrayObj NoStringTag) = Inr ''array''
   \<and> (\<exists>c\<in>set ''NaN''. isUpper c)"
proof -
  have l: "isLetter CHR ''I''" "isLetter CHR ''A''" "isLetter CHR ''r''" "isLetter CHR ''a''"
    "isLetter CHR ''y''" "isLetter CHR ''n''" "isLetter CHR ''t''" "\<not> isLetter CHR ''8''"
    by (simp_all add: isLetter_def isLower_def isUpper_def)
  have e: "toLowerCase ''Int'' = ''int''" "toLowerCase ''Array'' = ''array''"
    by (simp_all add: toLowerCase_def toLower_def)
  show ?thesis
    using getRealType_priority_chain [of "Primitive (JSNumber NaN)" "''NaN''"]
      getRealType_priority_chain [of "Primitive (JSNumber PosInfinity)" "''Infinity''"]
      getRealType_priority_chain [of "Object OrdinaryObj (StringTag ''Int8Array'')" "''int''"]
      getRealType_priority_chain [of "Object ArrayObj NoStringTag" "''array''"]
    by (simp add: Number_isNaN_def equals_Infinity_def l e)
qed

text \<open>
  Claim C3 as the specification words it fails on a typed array: the tag of
  \<^verbatim>\<open>new Int8Array()\<close> is \<^verbatim>\<open>'Int8Array'\<close>, the pattern stops at the digit, and
  \<^verbatim>\<open>getRealType\<close> returns \<^verbatim>\<open>'int'\<close>, which is not the tag lower-cased.
\<close>

theorem getRealType_Int8Array:
  "\<not> Number_isNaN (Object OrdinaryObj (StringTag ''Int8Array''))
   \<and> \<not> equals_Infinity (Object OrdinaryObj (StringTag ''Int8Array''))
   \<and> internalTag (Object OrdinaryObj (StringTag ''Int8Array'')) = ''Int8Array''
   \<and> toLowerCase ''Int8Array'' = ''int8array''
   \<and> getRealType (Object OrdinaryObj (StringTag ''Int8Array'')) = Inr ''int''
   \<and> getRealType (Object OrdinaryObj (StringTag ''Int8Array''))
        \<noteq> Inr (toLowerCase (internalTag (Object OrdinaryObj (StringTag ''Int8Array''))))"
  by (simp add: getRealType_def Number_isNaN_def equals_Infinity_def
      Object_prototype_toString_def isWhiteSpace_def isLetter_def isLower_def isUpper_def
      toLowerCase_def toLower_def)

section \<open>Sequences\<close>

lemma Array_map_Inr_iff:
  "Array_map f xs = Inr ys \<longleftrightarrow> map f xs = map Inr ys"
proof (induction xs arbitrary: ys)
  case Nil
  then show ?case by auto
next
  case (Cons x xs)
  show ?case
  proof (cases "f x")
    case (Inl e)
    then show ?thesis by (cases ys) auto
  next
    case (Inr y)
    show ?thesis
    proof (cases "Array_map f xs")
      case (Inl e)
      with Cons.IH have "\<And>zs. map f xs \<noteq> map Inr zs" by simp
      with Inr Inl show ?thesis by (cases ys) auto
    next
      case r: (Inr zs)
      with Cons.IH Inr show ?thesis by (cases ys) auto
    qed
  qed
qed

lemma map_Inr_nth_iff:
  "map f xs = map Inr ys \<longleftrightarrow>
     length ys = length xs \<and> (\<forall>i<length xs. f (xs ! i) = Inr (ys ! i))"
  by (auto simp: list_eq_iff_nth_eq)

lemma Array_map_Inl_iff:
  "(\<exists>e. Array_map f xs = Inl e) \<longleftrightarrow> (\<exists>x\<in>set xs. \<exists>e. f x = Inl e)"
proof (induction xs)
  case Nil
  then show ?case by simp
next
  case (Cons x xs)
  then show ?case by (auto split: sum.splits)
qed

text \<open>
  Claim C5. \<^verbatim>\<open>allItemsHaveTheSameType\<close> is true exactly when the set of the
  \<^verbatim>\<open>typeof\<close> results of the elements has one member, that is when the array is not
  empty and every element has the \<^verbatim>\<open>typeof\<close> of the first. It is false for the empty
  array.
\<close>

theorem allItemsHaveTheSameType_iff:
  "(allItemsHaveTheSameType arr \<longleftrightarrow> card (getType ` set arr) = 1)
   \<and> (allItemsHaveTheSameType arr \<longleftrightarrow> arr \<noteq> [] \<and> (\<forall>v\<in>set arr. getType v = getType (hd arr)))
   \<and> \<not> allItemsHaveTheSameType []"
proof -
  have a: "allItemsHaveTheSameType arr \<longleftrightarrow> card (getType ` set arr) = 1"
    by (simp add: allItemsHaveTheSameType_def Set_size_def getTypesOfItems_def)
  have b: "card (getType ` set arr) = 1 \<longleftrightarrow> arr \<noteq> [] \<and> (\<forall>v\<in>set arr. getType v = getType (hd arr))"
  proof
    assume "card (getType ` set arr) = 1"
    then obtain t where t: "getType ` set arr = {t}" by (auto simp: card_1_singleton_iff)
    then have "arr \<noteq> []" by auto
    moreover from t have "\<forall>v\<in>set arr. getType v = t" by auto
    ultimately show "arr \<noteq> [] \<and> (\<forall>v\<in>set arr. getType v = getType (hd arr))" by simp
  next
    assume h: "arr \<noteq> [] \<and> (\<forall>v\<in>set arr. getType v = getType (hd arr))"
    then have "getType ` set arr = {getType (hd arr)}" by (cases arr) auto
    then show "card (getType ` set arr) = 1" by simp
  qed
  show ?thesis using a b by (simp add: allItemsHaveTheSameType_def Set_size_def getTypesOfItems_def)
qed

theorem allItemsHaveTheSameType_iff_witness:
  "allItemsHaveTheSameType
     [Primitive (JSNumber (Finite ''11'')), Primitive (JSNumber (Finite ''12'')),
      Primitive (JSNumber (Finite ''13''))]
   \<and> \<not> allItemsHaveTheSameType
     [Primitive (JSString ''11''), Object StringObj NoStringTag, Primitive (JSString ''13'')]"
  using allItemsHaveTheSameType_iff
     [of "[Primitive (JSNumber (Finite ''11'')), Primitive (JSNumber (Finite ''12'')),
           Primitive (JSNumber (Finite ''13''))]"]
    allItemsHaveTheSameType_iff
     [of "[Primitive (JSString ''11''), Object StringObj NoStringTag, Primitive (JSString ''13'')]"]
  by (simp add: getType_def card_insert_if)

text \<open>
  Claim C6. \<^verbatim>\<open>everyItemHasAUniqueRealType\<close> returns \<open>b\<close> exactly when
  \<^verbatim>\<open>getRealType\<close> returns a tag for each element and \<open>b\<close> says that the number of
  distinct tags is the length of the array, that is that no two elements have the same
  tag. It throws exactly when \<^verbatim>\<open>getRealType\<close> throws for an element. For the empty
  array it returns true.
\<close>

theorem everyItemHasAUniqueRealType_iff:
  "(everyItemHasAUniqueRealType arr = Inr b \<longleftrightarrow>
      (\<exists>types. map getRealType arr = map Inr types \<and> b = (card (set types) = length arr)
               \<and> b = distinct types))
   \<and> ((\<exists>e. everyItemHasAUniqueRealType arr = Inl e) \<longleftrightarrow> (\<exists>v\<in>set arr. \<exists>e. getRealType v = Inl e))
   \<and> everyItemHasAUniqueRealType [] = Inr True"
proof -
  have d: "card (set types) = length arr \<longleftrightarrow> distinct types"
    if "map getRealType arr = map Inr types" for types
  proof -
    from that have "length types = length arr" by (metis length_map)
    then show ?thesis by (metis card_distinct distinct_card)
  qed
  have "everyItemHasAUniqueRealType arr = Inr b \<longleftrightarrow>
      (\<exists>types. map getRealType arr = map Inr types \<and> b = (card (set types) = length arr)
               \<and> b = distinct types)"
  proof (cases "Array_map getRealType arr")
    case (Inl e)
    then have "map getRealType arr \<noteq> map Inr types" for types
      using Array_map_Inr_iff [of getRealType arr types] by simp
    with Inl show ?thesis
      by (simp add: everyItemHasAUniqueRealType_def getRealTypesOfItems_def)
  next
    case (Inr types)
    then have m: "map getRealType arr = map Inr types" by (simp add: Array_map_Inr_iff)
    then have u: "map getRealType arr = map Inr zs \<longleftrightarrow> zs = types" for zs
      by (auto simp: inj_map_eq_map)
    from Inr d [OF m] show ?thesis
      by (auto simp: everyItemHasAUniqueRealType_def getRealTypesOfItems_def Set_size_def u)
  qed
  moreover have "(\<exists>e. everyItemHasAUniqueRealType arr = Inl e) \<longleftrightarrow>
      (\<exists>v\<in>set arr. \<exists>e. getRealType v = Inl e)"
    using Array_map_Inl_iff [of getRealType arr]
    by (cases "Array_map getRealType arr")
      (simp_all add: everyItemHasAUniqueRealType_def getRealTypesOfItems_def)
  moreover have "everyItemHasAUniqueRealType [] = Inr True"
    by (simp add: everyItemHasAUniqueRealType_def getRealTypesOfItems_def Set_size_def)
  ultimately show ?thesis by (intro conjI)
qed

theorem everyItemHasAUniqueRealType_iff_witness:
  "everyItemHasAUniqueRealType
     [Primitive (JSBoolean True), Primitive (JSNumber (Finite ''123'')), Primitive (JSString ''123'')]
     = Inr True
   \<and> everyItemHasAUniqueRealType
     [Primitive (JSBoolean True), Primitive (JSNumber (Finite ''123'')), Primitive (JSBoolean False)]
     = Inr False"
proof -
  note w = everyItemHasAUniqueRealType_iff [THEN conjunct1, THEN iffD2]
  have "everyItemHasAUniqueRealType
     [Primitive (JSBoolean True), Primitive (JSNumber (Finite ''123'')), Primitive (JSString ''123'')]
     = Inr True"
    by (rule w, rule exI [of _ "[''boolean'', ''number'', ''string'']"])
      (simp add: builtin_tag_eval card_insert_if)
  moreover have "everyItemHasAUniqueRealType
     [Primitive (JSBoolean True), Primitive (JSNumber (Finite ''123'')), Primitive (JSBoolean False)]
     = Inr False"
    by (rule w, rule exI [of _ "[''boolean'', ''number'', ''boolean'']"])
      (simp add: builtin_tag_eval card_insert_if)
  ultimately show ?thesis by (rule conjI)
qed

text \<open>
  Claim C7. \<^verbatim>\<open>getRealTypesOfItems\<close> returns a sequence exactly when that sequence has
  the length of the array and its element at each index is what \<^verbatim>\<open>getRealType\<close>
  returns for the array's element at that index. It throws exactly when
  \<^verbatim>\<open>getRealType\<close> throws for an element.
\<close>

theorem getRealTypesOfItems_elementwise:
  "(getRealTypesOfItems arr = Inr types \<longleftrightarrow>
      length types = length arr \<and> (\<forall>i<length arr. getRealType (arr ! i) = Inr (types ! i)))
   \<and> ((\<exists>e. getRealTypesOfItems arr = Inl e) \<longleftrightarrow> (\<exists>v\<in>set arr. \<exists>e. getRealType v = Inl e))"
  unfolding getRealTypesOfItems_def Array_map_Inr_iff map_Inr_nth_iff Array_map_Inl_iff by simp

theorem getRealTypesOfItems_elementwise_witness:
  "getRealTypesOfItems [Primitive (JSBoolean True), Primitive (JSNumber NaN), Primitive (JSBoolean True)]
     = Inr [''boolean'', ''NaN'', ''boolean'']"
proof -
  have "\<forall>i<3. getRealType ([Primitive (JSBoolean True), Primitive (JSNumber NaN), Primitive (JSBoolean True)] ! i)
           = Inr ([''boolean'', ''NaN'', ''boolean''] ! i)"
    by (simp add: All_less_Suc numeral_3_eq_3 builtin_tag_eval)
  then show ?thesis
    using getRealTypesOfItems_elementwise
      [THEN conjunct1,
       of "[Primitive (JSBoolean True), Primitive (JSNumber NaN), Primitive (JSBoolean True)]"
          "[''boolean'', ''NaN'', ''boolean'']"]
    by simp
qed

section \<open>Repeated calls\<close>






section \<open>Counting\<close>

lemma map_of_set_property: "map_of (set_property r k v) = (map_of r)(k \<mapsto> v)"
  by (induction r k v rule: set_property.induct) (auto simp: fun_eq_iff)

lemma keys_set_property:
  "map fst (set_property r k v) = (if k \<in> set (map fst r) then map fst r else map fst r @ [k])"
  by (induction r k v rule: set_property.induct) auto

lemma keys_count_type:
  "map fst (count_type r k) = (if k \<in> set (map fst r) then map fst r else map fst r @ [k])"
  by (simp only: count_type_def keys_set_property)

lemma keys_foldl_count_type:
  "distinct (map fst (foldl count_type [] xs)) \<and> set (map fst (foldl count_type [] xs)) = set xs"
proof (induction xs rule: rev_induct)
  case Nil
  then show ?case by simp
next
  case (snoc x xs)
  then show ?case by (auto simp: keys_count_type)
qed

lemma sorted_foldl_count_type:
  "sorted xs \<Longrightarrow> sorted (map fst (foldl count_type [] xs))"
proof (induction xs rule: rev_induct)
  case Nil
  then show ?case by simp
next
  case (snoc x xs)
  from snoc.prems have s: "sorted xs" and le: "\<forall>y\<in>set xs. y \<le> x"
    by (simp_all add: sorted_append)
  let ?r = "foldl count_type [] xs"
  have k: "set (map fst ?r) = set xs" using keys_foldl_count_type [of xs] by simp
  from snoc.IH [OF s] le k have "sorted (map fst ?r @ [x])"
    by (simp add: sorted_append)
  with snoc.IH [OF s] show ?case
    by (simp add: keys_count_type del: set_map)
qed

lemma counts_foldl_count_type:
  assumes "''constructor'' \<notin> set xs"
  shows "map_of (foldl count_type [] xs) k =
           (if k \<in> set xs then Some (PNumber (count_list xs k)) else None)"
  using assms
proof (induction xs arbitrary: k rule: rev_induct)
  case Nil
  then show ?case by simp
next
  case (snoc x xs)
  let ?r = "foldl count_type [] xs"
  from snoc.prems have nc: "''constructor'' \<notin> set xs" and x: "x \<noteq> ''constructor''" by auto
  note ih = snoc.IH [OF nc]
  have "or_zero_plus_one (get_property ?r x) = PNumber (count_list xs x + 1)"
  proof (cases "x \<in> set xs")
    case True
    then show ?thesis by (simp add: get_property_def ih)
  next
    case False
    then have "count_list xs x = 0" by (simp add: count_list_0_iff)
    with False x show ?thesis by (simp add: get_property_def ih Object_prototype_def)
  qed
  then have "map_of (count_type ?r x) = (map_of ?r)(x \<mapsto> PNumber (count_list xs x + 1))"
    by (simp add: count_type_def map_of_set_property)
  then show ?case by (simp add: ih)
qed

lemma entries_foldl_count_type:
  assumes "''constructor'' \<notin> set xs"
  shows "foldl count_type [] xs =
           map (\<lambda>k. (k, PNumber (count_list xs k))) (map fst (foldl count_type [] xs))"
proof -
  let ?r = "foldl count_type [] xs"
  have d: "distinct (map fst ?r)" and s: "set (map fst ?r) = set xs"
    using keys_foldl_count_type [of xs] by simp_all
  have "p = (fst p, PNumber (count_list xs (fst p)))" if "p \<in> set ?r" for p
  proof -
    from d that have "map_of ?r (fst p) = Some (snd p)"
      by (intro map_of_is_SomeI) simp_all
    moreover from that s have "fst p \<in> set xs" by force
    ultimately have "snd p = PNumber (count_list xs (fst p))"
      by (simp add: counts_foldl_count_type [OF assms])
    then show ?thesis by (cases p) simp
  qed
  then have "map (\<lambda>p. (fst p, PNumber (count_list xs (fst p)))) ?r = ?r"
    by (simp add: map_idI)
  then show ?thesis by (simp add: comp_def)
qed

lemma count_list_insort: "count_list (insort x xs) k = count_list (x # xs) k"
  by (induction xs) auto

lemma count_list_sort: "count_list (sort xs) k = count_list xs k"
  by (induction xs) (simp_all add: count_list_insort)

lemma sum_counts:
  assumes "distinct ks" "set ks = set xs"
  shows "sum_list (map (count_list xs) ks) = length xs"
proof -
  from assms(1) have "sum_list (map (count_list xs) ks) = sum (count_list xs) (set ks)"
    by (rule sum_list_distinct_conv_sum_set)
  also have "\<dots> = length xs" unfolding assms(2) by (rule sum_count_set) simp_all
  finally show ?thesis .
qed

text \<open>
  Whenever \<^verbatim>\<open>countRealTypes\<close> returns, its entries carry the tags of the elements,
  in ascending order and each once. When no element has the tag \<^verbatim>\<open>'constructor'\<close>, each
  tag comes with the number of elements that have it, and these numbers add up to the
  length of the array.
\<close>

lemma countRealTypes_keys:
  assumes "countRealTypes arr = Inr entries"
  shows "\<exists>types. getRealTypesOfItems arr = Inr types \<and> sorted (map fst entries)
           \<and> distinct (map fst entries) \<and> set (map fst entries) = set types"
proof -
  from assms obtain types where t: "getRealTypesOfItems arr = Inr types"
    and e: "entries = foldl count_type [] (sort types)"
    by (auto simp: countRealTypes_def Object_entries_def split: sum.splits)
  have "sorted (map fst entries)" unfolding e by (rule sorted_foldl_count_type) simp
  moreover have "distinct (map fst entries)" "set (map fst entries) = set types"
    unfolding e using keys_foldl_count_type [of "sort types"] by simp_all
  ultimately show ?thesis using t by blast
qed

lemma countRealTypes_counts:
  assumes "countRealTypes arr = Inr entries" "getRealTypesOfItems arr = Inr types"
    and "''constructor'' \<notin> set types"
  shows "entries = map (\<lambda>k. (k, PNumber (count_list types k))) (map fst entries)
         \<and> sum_list (map (count_list types) (map fst entries)) = length arr
         \<and> (\<forall>k\<in>set (map fst entries). 1 \<le> count_list types k)"
proof -
  from assms(1,2) have e: "entries = foldl count_type [] (sort types)"
    by (simp add: countRealTypes_def Object_entries_def)
  from assms(3) have nc: "''constructor'' \<notin> set (sort types)" by simp
  have d: "distinct (map fst entries)" and s: "set (map fst entries) = set types"
    unfolding e using keys_foldl_count_type [of "sort types"] by simp_all
  from assms(2) have l: "length types = length arr"
    by (simp add: getRealTypesOfItems_def Array_map_Inr_iff) (metis length_map)
  have "entries = map (\<lambda>k. (k, PNumber (count_list types k))) (map fst entries)"
    using entries_foldl_count_type [OF nc] unfolding e [symmetric] count_list_sort .
  moreover have "sum_list (map (count_list types) (map fst entries)) = length arr"
    using sum_counts [OF d s] l by simp
  moreover have "\<forall>k\<in>set (map fst entries). 1 \<le> count_list types k"
    unfolding s using count_list_0_iff [of types] by (metis Suc_leI neq0_conv One_nat_def)
  ultimately show ?thesis by blast
qed

lemma countRealTypes_empty: "countRealTypes [] = Inr []"
  by (simp add: countRealTypes_def getRealTypesOfItems_def Object_entries_def)

lemma countRealTypes_Inl_iff:
  "(\<exists>e. countRealTypes arr = Inl e) \<longleftrightarrow> (\<exists>v\<in>set arr. \<exists>e. getRealType v = Inl e)"
  using Array_map_Inl_iff [of getRealType arr]
  by (cases "Array_map getRealType arr")
    (simp_all add: countRealTypes_def getRealTypesOfItems_def)

text \<open>
  Claim C4 says that the counts \<^verbatim>\<open>countRealTypes\<close> returns add up to the length of the
  array. For the array \<^verbatim>\<open>[{ [Symbol.toStringTag]: 'constructor' }]\<close> they do not: the
  tag is \<^verbatim>\<open>'constructor'\<close>, \<^verbatim>\<open>result['constructor']\<close> reads the function \<^verbatim>\<open>Object\<close>
  that \<^verbatim>\<open>result\<close> inherits, and \<^verbatim>\<open>(Object || 0) + 1\<close> is a string. The only entry
  holds that string in the place of the count 1.
\<close>

theorem countRealTypes_constructor:
  "getRealType (Object OrdinaryObj (StringTag ''constructor'')) = Inr ''constructor''
   \<and> get_property [] ''constructor'' = ReadFunction ''function Object() { [native code] }''
   \<and> countRealTypes [Object OrdinaryObj (StringTag ''constructor'')]
       = Inr [(''constructor'', PString ''function Object() { [native code] }1'')]"
  by (simp add: countRealTypes_def getRealTypesOfItems_def getRealType_def Number_isNaN_def
      equals_Infinity_def Object_prototype_toString_def isWhiteSpace_def isLetter_def
      isLower_def isUpper_def toLowerCase_def toLower_def Object_entries_def count_type_def
      get_property_def Object_prototype_def)

text \<open>
  Claim C10 says that every count \<^verbatim>\<open>countRealTypes\<close> returns is at least 1. For two
  objects whose tag is \<^verbatim>\<open>'constructor'\<close> the one entry it returns holds, in the place
  of the count 2, the text of the function \<^verbatim>\<open>Object\<close> followed by \<^verbatim>\<open>'11'\<close>.
\<close>

theorem countRealTypes_constructor_twice:
  "countRealTypes [Object OrdinaryObj (StringTag ''constructor''),
                   Object OrdinaryObj (StringTag ''Constructor'')]
     = Inr [(''constructor'', PString ''function Object() { [native code] }11'')]"
  by (simp add: countRealTypes_def getRealTypesOfItems_def getRealType_def Number_isNaN_def
      equals_Infinity_def Object_prototype_toString_def isWhiteSpace_def isLetter_def
      isLower_def isUpper_def toLowerCase_def toLower_def Object_entries_def count_type_def
      get_property_def Object_prototype_def)

section \<open>Equality in the test helper\<close>

lemma single_escape_cases:
  assumes "map_of JSON_single_escapes c = Some x"
  shows "(c, x) \<in> {(CHR 0x08, CHR ''b''), (CHR 0x09, CHR ''t''), (CHR 0x0A, CHR ''n''),
      (CHR 0x0C, CHR ''f''), (CHR 0x0D, CHR ''r''), (CHR 0x22, CHR 0x22), (CHR 0x5C, CHR 0x5C)}"
  using map_of_SomeD [OF assms] by (simp add: JSON_single_escapes_def)

lemma single_escape_inj:
  assumes "map_of JSON_single_escapes c = Some x" "map_of JSON_single_escapes d = Some x"
  shows "c = d"
  using single_escape_cases [OF assms(1)] single_escape_cases [OF assms(2)]
  by (elim insertE emptyE; simp)

lemma single_escape_not_u:
  assumes "map_of JSON_single_escapes c = Some x"
  shows "x \<noteq> CHR ''u''"
  using single_escape_cases [OF assms] by (elim insertE emptyE; simp)

lemma no_escape_literal:
  assumes "map_of JSON_single_escapes c = None"
  shows "c \<noteq> CHR 0x5C \<and> c \<noteq> CHR 0x22"
  using assms by (auto simp: JSON_single_escapes_def split: if_splits)

lemma hexDigit_inj:
  assumes "a < 16" "b < 16" "hexDigit a = hexDigit b"
  shows "a = b"
proof -
  have "distinct ''0123456789abcdef''" by simp
  moreover have "length ''0123456789abcdef'' = 16" by simp
  ultimately show ?thesis using assms
    by (simp add: hexDigit_def nth_eq_iff_index_eq)
qed

lemma UnicodeEscape_inj:
  assumes "UnicodeEscape c = UnicodeEscape d"
  shows "c = d"
proof -
  let ?m = "of_char c :: nat" and ?n = "of_char d :: nat"
  have b: "?m < 256" "?n < 256" by simp_all
  then have "?m div 16 < 16" "?n div 16 < 16" by arith+
  moreover have "?m mod 16 < 16" "?n mod 16 < 16" by simp_all
  moreover from assms have "hexDigit (?m div 16) = hexDigit (?n div 16)"
    "hexDigit (?m mod 16) = hexDigit (?n mod 16)"
    by (simp_all add: UnicodeEscape_def)
  ultimately have "?m div 16 = ?n div 16" "?m mod 16 = ?n mod 16"
    by (blast intro: hexDigit_inj)+
  then have "?m = ?n" by (metis div_mult_mod_eq)
  then show ?thesis by simp
qed

lemma QuoteJSONChar_cases:
  obtains (single) x where "map_of JSON_single_escapes c = Some x" "QuoteJSONChar c = [CHR 0x5C, x]"
  | (unicode) "map_of JSON_single_escapes c = None" "QuoteJSONChar c = UnicodeEscape c"
  | (literal) "c \<noteq> CHR 0x5C" "c \<noteq> CHR 0x22" "QuoteJSONChar c = [c]"
proof (cases "map_of JSON_single_escapes c")
  case None
  then show ?thesis
    using no_escape_literal [OF None] unicode literal by (cases "(of_char c :: nat) < 0x20") (simp_all add: QuoteJSONChar_def)
next
  case (Some x)
  then show ?thesis using single by (simp add: QuoteJSONChar_def)
qed

lemma QuoteJSONChar_prefix:
  assumes "QuoteJSONChar c @ r = QuoteJSONChar d @ r'"
  shows "c = d \<and> r = r'"
proof (cases c rule: QuoteJSONChar_cases)
  case (single x)
  show ?thesis
  proof (cases d rule: QuoteJSONChar_cases)
    case s2: (single y)
    with single assms have "x = y" "r = r'" by simp_all
    with single s2 show ?thesis by (simp add: single_escape_inj)
  next
    case unicode
    with single assms single_escape_not_u [OF single(1)] show ?thesis
      by (simp add: UnicodeEscape_def)
  next
    case literal
    with single assms show ?thesis by simp
  qed
next
  case unicode
  show ?thesis
  proof (cases d rule: QuoteJSONChar_cases)
    case (single y)
    with unicode assms single_escape_not_u [OF single(1)] show ?thesis
      by (simp add: UnicodeEscape_def)
  next
    case u2: unicode
    with unicode assms have "UnicodeEscape c = UnicodeEscape d" "r = r'"
      by (simp_all add: UnicodeEscape_def)
    then show ?thesis by (simp add: UnicodeEscape_inj)
  next
    case literal
    with unicode assms show ?thesis by (simp add: UnicodeEscape_def)
  qed
next
  case literal
  show ?thesis
  proof (cases d rule: QuoteJSONChar_cases)
    case (single y)
    with literal assms show ?thesis by simp
  next
    case unicode
    with literal assms show ?thesis by (simp add: UnicodeEscape_def)
  next
    case l2: literal
    with literal assms show ?thesis by simp
  qed
qed

lemma QuoteJSONChar_no_quote:
  "QuoteJSONChar c \<noteq> [] \<and> hd (QuoteJSONChar c) \<noteq> CHR 0x22"
  by (cases c rule: QuoteJSONChar_cases) (simp_all add: UnicodeEscape_def)

lemma quoted_body_prefix:
  assumes "concat (map QuoteJSONChar s) @ CHR 0x22 # r = concat (map QuoteJSONChar t) @ CHR 0x22 # r'"
  shows "s = t \<and> r = r'"
  using assms
proof (induction s arbitrary: t)
  case Nil
  show ?case
  proof (cases t)
    case Nil
    with Nil.prems show ?thesis by simp
  next
    case (Cons d t')
    from QuoteJSONChar_no_quote [of d] obtain h q where "QuoteJSONChar d = h # q" "h \<noteq> CHR 0x22"
      by (cases "QuoteJSONChar d") auto
    with Nil.prems Cons show ?thesis by simp
  qed
next
  case (Cons c s)
  show ?case
  proof (cases t)
    case Nil
    from QuoteJSONChar_no_quote [of c] obtain h q where "QuoteJSONChar c = h # q" "h \<noteq> CHR 0x22"
      by (cases "QuoteJSONChar c") auto
    with Cons.prems Nil show ?thesis by simp
  next
    case t: (Cons d t')
    with Cons.prems have "QuoteJSONChar c @ (concat (map QuoteJSONChar s) @ CHR 0x22 # r)
        = QuoteJSONChar d @ (concat (map QuoteJSONChar t') @ CHR 0x22 # r')"
      by simp
    from QuoteJSONChar_prefix [OF this] Cons.IH [of t'] t show ?thesis by simp
  qed
qed

lemma QuoteJSONString_prefix:
  assumes "QuoteJSONString s @ r = QuoteJSONString t @ r'"
  shows "s = t \<and> r = r'"
  using assms quoted_body_prefix [of s r t r'] by (simp add: QuoteJSONString_def)

lemma QuoteJSONString_Cons: "\<exists>q. QuoteJSONString s = CHR 0x22 # q"
  by (simp add: QuoteJSONString_def)

lemma join_comma_Cons:
  "join_comma (x # xs) @ r = x @ (if xs = [] then r else CHR '','' # join_comma xs @ r)"
  by (cases xs) simp_all

lemma join_quoted_inj:
  assumes "join_comma (map QuoteJSONString ss) @ '']'' = join_comma (map QuoteJSONString ts) @ '']''"
  shows "ss = ts"
  using assms
proof (induction ss arbitrary: ts)
  case Nil
  show ?case
  proof (cases ts)
    case Nil
    then show ?thesis by simp
  next
    case (Cons t ts')
    from QuoteJSONString_Cons [of t] obtain q where "QuoteJSONString t = CHR 0x22 # q" ..
    with Nil.prems Cons show ?thesis by (simp add: join_comma_Cons)
  qed
next
  case (Cons s ss)
  show ?case
  proof (cases ts)
    case Nil
    from QuoteJSONString_Cons [of s] obtain q where "QuoteJSONString s = CHR 0x22 # q" ..
    with Cons.prems Nil show ?thesis by (simp add: join_comma_Cons)
  next
    case t: (Cons t ts')
    let ?r = "if map QuoteJSONString ss = [] then '']'' else CHR '','' # join_comma (map QuoteJSONString ss) @ '']''"
    let ?r' = "if map QuoteJSONString ts' = [] then '']'' else CHR '','' # join_comma (map QuoteJSONString ts') @ '']''"
    from Cons.prems t have "QuoteJSONString s @ ?r = QuoteJSONString t @ ?r'"
      by (simp only: list.map join_comma_Cons)
    from QuoteJSONString_prefix [OF this] have st: "s = t" and r: "?r = ?r'" by simp_all
    have "ss = ts'"
    proof (cases "ss = []")
      case True
      with r show ?thesis by (cases "ts' = []") simp_all
    next
      case False
      with r have "ts' \<noteq> []" by (cases "ts' = []") simp_all
      with False r show ?thesis using Cons.IH [of ts'] by simp
    qed
    with st t show ?thesis by simp
  qed
qed

lemma SerializeJSONElements_strings:
  "SerializeJSONElements (map (\<lambda>s. Datum (JSString s)) ss) = Inr (map QuoteJSONString ss)"
  by (induction ss) simp_all

lemma JSON_stringify_strings:
  "JSON_stringify (Array (map (\<lambda>s. Datum (JSString s)) ss)) =
     Inr (Some (''['' @ join_comma (map QuoteJSONString ss) @ '']''))"
  by (simp add: JSON_stringify_def SerializeJSONElements_strings)

lemma areEqual_arrays:
  "areEqual (Array xs) (Array ys) = Inr True \<longleftrightarrow>
     length xs = length ys \<and> xs \<noteq> []
     \<and> (\<exists>t. JSON_stringify (Array xs) = Inr t \<and> JSON_stringify (Array ys) = Inr t)"
  by (auto simp: areEqual_def split: sum.splits)

lemma areEqual_strings:
  "areEqual (Array (map (\<lambda>s. Datum (JSString s)) ss)) (Array (map (\<lambda>s. Datum (JSString s)) ts))
     = Inr (ss \<noteq> [] \<and> ss = ts)"
proof -
  have "join_comma (map QuoteJSONString ss) @ '']'' = join_comma (map QuoteJSONString ts) @ '']''
      \<longleftrightarrow> ss = ts"
    using join_quoted_inj [of ss ts] by auto
  then show ?thesis
    by (auto simp: areEqual_def JSON_stringify_strings)
qed

text \<open>
  Claim C8, as the code has it. \<^verbatim>\<open>areEqual\<close> declares two arrays equal exactly when
  they have the same length, the length is not zero, and \<^verbatim>\<open>JSON.stringify\<close> prints the
  same text for both. For two arrays of strings this is the case exactly when they
  have the same length, not zero, and equal elements at every index. Two empty arrays
  are declared unequal.
\<close>

theorem areEqual_sequences:
  "(areEqual (Array xs) (Array ys) = Inr True \<longleftrightarrow>
       length xs = length ys \<and> xs \<noteq> []
       \<and> (\<exists>t. JSON_stringify (Array xs) = Inr t \<and> JSON_stringify (Array ys) = Inr t))
   \<and> areEqual (Array (map (\<lambda>s. Datum (JSString s)) ss)) (Array (map (\<lambda>s. Datum (JSString s)) ts))
       = Inr (length ss = length ts \<and> ss \<noteq> [] \<and> (\<forall>i<length ss. ss ! i = ts ! i))
   \<and> areEqual (Array []) (Array []) = Inr False"
proof -
  have "ss = ts \<longleftrightarrow> length ss = length ts \<and> (\<forall>i<length ss. ss ! i = ts ! i)"
    by (rule list_eq_iff_nth_eq)
  then have "(ss \<noteq> [] \<and> ss = ts) = (length ss = length ts \<and> ss \<noteq> [] \<and> (\<forall>i<length ss. ss ! i = ts ! i))"
    by blast
  with areEqual_strings [of ss ts]
  have b: "areEqual (Array (map (\<lambda>s. Datum (JSString s)) ss)) (Array (map (\<lambda>s. Datum (JSString s)) ts))
       = Inr (length ss = length ts \<and> ss \<noteq> [] \<and> (\<forall>i<length ss. ss ! i = ts ! i))"
    by (simp only:)
  have c: "areEqual (Array []) (Array []) = Inr False"
    by (simp add: areEqual_def)
  show ?thesis by (rule conjI [OF areEqual_arrays conjI [OF b c]])
qed

theorem areEqual_sequences_witness:
  "areEqual (Array [Datum (JSString ''boolean''), Datum (JSString ''NaN'')])
            (Array [Datum (JSString ''boolean''), Datum (JSString ''NaN'')]) = Inr True
   \<and> areEqual (Array [Datum (JSString ''boolean''), Datum (JSString ''NaN'')])
              (Array [Datum (JSString ''boolean''), Datum (JSString ''number'')]) = Inr False"
proof -
  note w = areEqual_sequences [THEN conjunct2, THEN conjunct1]
  from w [of "[''boolean'', ''NaN'']" "[''boolean'', ''NaN'']"]
  have "areEqual (Array [Datum (JSString ''boolean''), Datum (JSString ''NaN'')])
            (Array [Datum (JSString ''boolean''), Datum (JSString ''NaN'')]) = Inr True"
    by simp
  moreover from w [of "[''boolean'', ''NaN'']" "[''boolean'', ''number'']"]
  have "areEqual (Array [Datum (JSString ''boolean''), Datum (JSString ''NaN'')])
            (Array [Datum (JSString ''boolean''), Datum (JSString ''number'')]) = Inr False"
    by (simp add: All_less_Suc)
  ultimately show ?thesis by (rule conjI)
qed

text \<open>
  Claim C8 as the specification words it fails on \<^verbatim>\<open>[NaN]\<close> and \<^verbatim>\<open>[null]\<close>: both are
  printed as \<^verbatim>\<open>'[null]'\<close>, so \<^verbatim>\<open>areEqual\<close> declares them equal, and their elements
  are not equal.
\<close>

theorem areEqual_NaN_null:
  "areEqual (Array [Datum (JSNumber NaN)]) (Array [Datum JSNull]) = Inr True
   \<and> JSON_stringify (Array [Datum (JSNumber NaN)]) = Inr (Some ''[null]'')
   \<and> JSON_stringify (Array [Datum JSNull]) = Inr (Some ''[null]'')
   \<and> length [Datum (JSNumber NaN)] = length [Datum JSNull]
   \<and> [Datum (JSNumber NaN)] ! 0 \<noteq> [Datum JSNull] ! 0
   \<and> \<not> strict_equals (JSNumber NaN) JSNull"
  by (simp add: areEqual_def JSON_stringify_def)

end
